theory Spec2Isabelle
  imports Main "HOL-Library.Word"
begin

unbundle bit_operations_syntax

section \<open>Build configuration (diagtask.hpp)\<close>

text \<open>
  The preprocessor switches and limits of \<^verbatim>\<open>diagtask.hpp\<close>, at the values the header
  gives them when the user defines nothing, and \<^verbatim>\<open>ENABLE_ECHO\<close> of \<^verbatim>\<open>diagtask.cpp\<close>.
\<close>

definition DIAGTASK_ENABLE_HELP :: bool where
  "DIAGTASK_ENABLE_HELP = True"

definition DIAGTASK_ENABLE_SEPARATOR :: bool where
  "DIAGTASK_ENABLE_SEPARATOR = True"

definition DIAGTASK_ENABLE_SEARCH :: bool where
  "DIAGTASK_ENABLE_SEARCH = False"

definition DIAGTASK_ENABLE_REBOOT :: bool where
  "DIAGTASK_ENABLE_REBOOT = True"

definition DIAGTASK_ENABLE_TAB_COMPLETION :: bool where
  "DIAGTASK_ENABLE_TAB_COMPLETION = True"

definition ENABLE_ECHO :: bool where
  "ENABLE_ECHO = True"

definition DIAGTASK_MAX_HOOKNAME_LEN :: nat where
  "DIAGTASK_MAX_HOOKNAME_LEN = 20"

definition DIAGTASK_MAX_HOOK_INPUT_LEN :: nat where
  "DIAGTASK_MAX_HOOK_INPUT_LEN = DIAGTASK_MAX_HOOKNAME_LEN + 10"

definition DIAGTASK_MIN_HOOKNAME_LEN :: nat where
  "DIAGTASK_MIN_HOOKNAME_LEN = 1"

definition DIAGTASK_HOOKDESC_LEN :: nat where
  "DIAGTASK_HOOKDESC_LEN = 20"

subsection \<open>Reserved characters and feature bits\<close>

definition SPECIAL_KEYWORD_HELP :: char where
  "SPECIAL_KEYWORD_HELP = CHR ''?''"

definition SPECIAL_KEYWORD_SEPARATOR :: char where
  "SPECIAL_KEYWORD_SEPARATOR = CHR ''#''"

definition SPECIAL_KEYWORD_SEARCH :: char where
  "SPECIAL_KEYWORD_SEARCH = CHR ''/''"

definition SPECIAL_KEYWORD_TAB :: char where
  "SPECIAL_KEYWORD_TAB = CHR 0x09"

definition SPECIAL_KEYWORD_REBOOT :: char where
  "SPECIAL_KEYWORD_REBOOT = CHR ''!''"

definition SPECIAL_KEYWORD_WILDCARD :: char where
  "SPECIAL_KEYWORD_WILDCARD = CHR ''*''"

text \<open>The line end \<^verbatim>\<open>'\n'\<close> and the string terminator \<^verbatim>\<open>'\0'\<close>.\<close>

definition EOL :: char where
  "EOL = CHR 0x0A"

definition NUL :: char where
  "NUL = CHR 0x00"

text \<open>\<^verbatim>\<open>enum features_t\<close>; \<^verbatim>\<open>mFeatures\<close> is an \<^verbatim>\<open>unsigned int\<close>.\<close>

definition feature_None :: "32 word" where
  "feature_None = 0x00"

definition feature_Help :: "32 word" where
  "feature_Help = 0x01"

definition feature_Seperator :: "32 word" where
  "feature_Seperator = 0x02"

definition feature_Search :: "32 word" where
  "feature_Search = 0x04"

definition feature_Reboot :: "32 word" where
  "feature_Reboot = 0x08"

definition feature_TabCompletion :: "32 word" where
  "feature_TabCompletion = 0x10"

section \<open>Data model\<close>

text \<open>
  A C string is modelled by its contents: the characters in front of the terminating
  \<^verbatim>\<open>'\0'\<close>. A callback is a function pointer; the model keeps its identity and records
  each call, with the argument text, in the trace. What a callback does is outside the
  console: it is taken not to call the console again.
\<close>

type_synonym hook_fn = nat

record hookEntry_t =
  name :: string
  description :: string
  hook :: hook_fn

text \<open>
  What the console does to the outside: text written to \<^verbatim>\<open>stdout\<close> (one event for each
  \<^verbatim>\<open>putchar\<close> or \<^verbatim>\<open>printf\<close>), a call of a registered callback, and the call of the
  reboot function.
\<close>

datatype event = Put string | Invoke hook_fn string | Reboot

text \<open>
  The object's members. \<^verbatim>\<open>mGetchar\<close> and \<^verbatim>\<open>mReboot\<close> say whether the function pointer
  is set; \<^verbatim>\<open>mUptime\<close> is \<open>None\<close> for a null pointer and otherwise holds the value the
  uptime function returns when it is called. \<^verbatim>\<open>count\<close> is the function-local static of
  \<^verbatim>\<open>privDisplaySeparator\<close>.
\<close>

record DiagTask =
  mHooks :: "hookEntry_t list"
  mFeatures :: "32 word"
  mCurrentValidInput :: string
  mGetchar :: bool
  mUptime :: "32 word option"
  mReboot :: bool
  count :: "32 word"
  trace :: "event list"

text \<open>A call either returns, or never does (the busy loop behind the reboot).\<close>

datatype 'a outcome = Returns 'a | Hangs DiagTask

text \<open>The three constructors of the class.\<close>

definition DiagTask3 :: "bool \<Rightarrow> 32 word option \<Rightarrow> bool \<Rightarrow> DiagTask" where
  "DiagTask3 getch uptime reboot =
     \<lparr>mHooks = [], mFeatures = feature_None, mCurrentValidInput = [],
      mGetchar = getch, mUptime = uptime, mReboot = reboot, count = 0, trace = []\<rparr>"

definition DiagTask2 :: "bool \<Rightarrow> 32 word option \<Rightarrow> DiagTask" where
  "DiagTask2 getch uptime = DiagTask3 getch uptime False"

definition DiagTask1 :: "bool \<Rightarrow> DiagTask" where
  "DiagTask1 getch = DiagTask3 getch None False"

definition emit :: "event list \<Rightarrow> DiagTask \<Rightarrow> DiagTask" where
  "emit es st = st\<lparr>trace := trace st @ es\<rparr>"

definition reset_input :: "DiagTask \<Rightarrow> DiagTask" where
  "reset_input st = st\<lparr>mCurrentValidInput := []\<rparr>"

section \<open>C library functions used by the console\<close>

text \<open>\<^verbatim>\<open>strchr\<close>: the offset of the first occurrence, \<open>None\<close> for a null result.\<close>

fun strchr :: "string \<Rightarrow> char \<Rightarrow> nat option" where
  "strchr [] c = None"
| "strchr (x # xs) c = (if x = c then Some 0 else map_option Suc (strchr xs c))"

text \<open>
  \<^verbatim>\<open>strncmp\<close>: at most \<open>n\<close> characters are compared, and the comparison ends at a
  terminator. Only the sign of the result is defined by the C standard.
\<close>

fun strncmp :: "string \<Rightarrow> string \<Rightarrow> nat \<Rightarrow> int" where
  "strncmp s t 0 = 0"
| "strncmp [] [] (Suc n) = 0"
| "strncmp [] (y # ys) (Suc n) = - 1"
| "strncmp (x # xs) [] (Suc n) = 1"
| "strncmp (x # xs) (y # ys) (Suc n) =
     (if x = y then strncmp xs ys n
      else if (of_char x :: nat) < of_char y then - 1 else 1)"

text \<open>\<^verbatim>\<open>printf\<close> conversions: \<^verbatim>\<open>%-20s\<close>, \<^verbatim>\<open>%5lu\<close> and \<^verbatim>\<open>%10lu\<close>.\<close>

definition pad_right :: "nat \<Rightarrow> string \<Rightarrow> string" where
  "pad_right w s = s @ replicate (w - length s) CHR '' ''"

definition pad_left :: "nat \<Rightarrow> string \<Rightarrow> string" where
  "pad_left w s = replicate (w - length s) CHR '' '' @ s"

fun decimal :: "nat \<Rightarrow> string" where
  "decimal n =
     (if n < 10 then [char_of (48 + n)]
      else decimal (n div 10) @ [char_of (48 + n mod 10)])"

declare decimal.simps [simp del]

section \<open>The hook registry\<close>

text \<open>
  \<^verbatim>\<open>registerHook\<close>. A null \<^verbatim>\<open>name\<close>, \<^verbatim>\<open>hook\<close> or \<^verbatim>\<open>description\<close> is \<open>None\<close>.
  \<^verbatim>\<open>strncpy\<close> copies at most the given number of characters, and the array's last
  element is set to the terminator.
\<close>

definition registerHook ::
  "DiagTask \<Rightarrow> string option \<Rightarrow> hook_fn option \<Rightarrow> string option \<Rightarrow> bool \<times> DiagTask" where
  "registerHook st nm hk desc =
     (case (nm, hk) of
        (Some n, Some f) \<Rightarrow>
          (let len = length n in
           if len < DIAGTASK_MIN_HOOKNAME_LEN \<or> len > DIAGTASK_MAX_HOOKNAME_LEN
           then (False, st)
           else
             (let entry =
                \<lparr>name = take DIAGTASK_MAX_HOOKNAME_LEN n,
                 description =
                   (case desc of
                      Some d \<Rightarrow> take DIAGTASK_HOOKDESC_LEN d
                    | None \<Rightarrow> []),
                 hook = f\<rparr>
              in (True, st\<lparr>mHooks := mHooks st @ [entry]\<rparr>)))
      | _ \<Rightarrow> (False, st))"

definition enableFeatures :: "DiagTask \<Rightarrow> 32 word \<Rightarrow> DiagTask" where
  "enableFeatures st features = st\<lparr>mFeatures := features\<rparr>"

definition executeHook :: "DiagTask \<Rightarrow> string \<Rightarrow> bool" where
  "executeHook st nm = False"

section \<open>Matching\<close>

text \<open>
  The body of the loop of \<^verbatim>\<open>privFindHooks\<close>: \<^verbatim>\<open>lenHook\<close>, \<^verbatim>\<open>lenInput\<close> and
  \<^verbatim>\<open>lenMin\<close> are \<^verbatim>\<open>uint16_t\<close>.
\<close>

definition lenHook :: "hookEntry_t \<Rightarrow> 16 word" where
  "lenHook h =
     (case strchr (name h) SPECIAL_KEYWORD_WILDCARD of
        None \<Rightarrow> of_nat (length (name h))
      | Some posWildcard \<Rightarrow> of_nat posWildcard)"

definition hook_selected :: "string \<Rightarrow> hookEntry_t \<Rightarrow> bool" where
  "hook_selected prefix h =
     (let lenInput = (of_nat (length prefix) :: 16 word);
          lenMin = min (lenHook h) lenInput
      in strncmp (name h) prefix (unat lenMin) = 0)"

definition privFindHooks :: "DiagTask \<Rightarrow> string \<Rightarrow> hookEntry_t list" where
  "privFindHooks st prefix =
     fold (\<lambda>h filterredHooks.
             if hook_selected prefix h then filterredHooks @ [h] else filterredHooks)
       (mHooks st) []"

section \<open>Special commands\<close>

definition hook_line :: "hookEntry_t \<Rightarrow> string" where
  "hook_line h = pad_right 20 (name h) @ [CHR 0x09] @ description h @ [EOL]"

definition privHelp :: "DiagTask \<Rightarrow> DiagTask" where
  "privHelp st =
     emit ([Put [EOL]]
           @ (if DIAGTASK_ENABLE_HELP
              then [Put (SPECIAL_KEYWORD_HELP # '' - help\<newline>'')] else [])
           @ (if DIAGTASK_ENABLE_SEARCH
              then [Put (SPECIAL_KEYWORD_SEARCH # '' - search\<newline>'')] else [])
           @ (if DIAGTASK_ENABLE_SEPARATOR
              then [Put (SPECIAL_KEYWORD_SEPARATOR # '' - separator\<newline>'')] else [])
           @ (if DIAGTASK_ENABLE_REBOOT
              then [Put (SPECIAL_KEYWORD_REBOOT # '' - reboot\<newline>'')] else [])
           @ map (\<lambda>h. Put (hook_line h)) (mHooks st)) st"

definition privDisplaySeparator :: "DiagTask \<Rightarrow> DiagTask" where
  "privDisplaySeparator st =
     (let up = (case mUptime st of Some t \<Rightarrow> t | None \<Rightarrow> 0) in
      (emit [Put ''\<newline>\<newline>\<newline>\<newline>'',
             Put ''###########################################\<newline>'',
             Put (''### SEPARATOR '' @ pad_left 5 (decimal (unat (count st)))
                  @ '' ######  '' @ pad_left 10 (decimal (unat up)) @ ''  ###\<newline>''),
             Put ''###########################################\<newline>'',
             Put ''\<newline>\<newline>\<newline>\<newline>''] st)
        \<lparr>count := count st + 1\<rparr>)"

definition privCheckAndProcessSpecialChars ::
  "DiagTask \<Rightarrow> char \<Rightarrow> (bool \<times> DiagTask) outcome" where
  "privCheckAndProcessSpecialChars st input =
     (if DIAGTASK_ENABLE_HELP \<and> mFeatures st AND feature_Help \<noteq> 0
         \<and> input = SPECIAL_KEYWORD_HELP
      then Returns (True, reset_input (privHelp st))
      else if DIAGTASK_ENABLE_SEPARATOR \<and> mFeatures st AND feature_Seperator \<noteq> 0
         \<and> input = SPECIAL_KEYWORD_SEPARATOR
      then Returns (True, reset_input (privDisplaySeparator st))
      else if DIAGTASK_ENABLE_REBOOT \<and> mFeatures st AND feature_Reboot \<noteq> 0
         \<and> mReboot st \<and> input = SPECIAL_KEYWORD_REBOOT
      then Hangs (emit [Put ''rebooting\<newline>'', Reboot] st)
      else if DIAGTASK_ENABLE_SEARCH \<and> mFeatures st AND feature_Search \<noteq> 0
         \<and> input = SPECIAL_KEYWORD_SEARCH
      then Returns (True, emit [Put ''net yet implemented\<newline>''] (reset_input st))
      else Returns (False, st))"

section \<open>Tab completion\<close>

text \<open>
  The candidate list prints \<^verbatim>\<open>&h.name[len]\<close>. The array \<^verbatim>\<open>name\<close> is filled with
  terminators behind the name, so up to its capacity this is the rest of the name from
  \<open>len\<close> on, empty when the input is longer than the name. For an input longer than
  the array the source reads behind it; the model prints an empty rest there too, and no
  property below depends on the text of the list.
\<close>

definition candidate_line :: "string \<Rightarrow> hookEntry_t \<Rightarrow> string" where
  "candidate_line input h =
     ''['' @ input @ '']'' @ pad_right 20 (drop (length input) (name h))
     @ [CHR 0x09] @ description h @ [EOL]"

definition processTabCompetion :: "DiagTask \<Rightarrow> char \<Rightarrow> bool \<times> DiagTask" where
  "processTabCompetion st input =
     (if DIAGTASK_ENABLE_TAB_COMPLETION \<and> mFeatures st AND feature_TabCompletion \<noteq> 0
         \<and> input = SPECIAL_KEYWORD_TAB
      then
        (if mCurrentValidInput st \<noteq> []
         then
           (let filterredHooks = privFindHooks st (mCurrentValidInput st) in
            if length filterredHooks = 1
            then
              (True,
               reset_input
                 (emit [Put (''['' @ name (filterredHooks ! 0) @ '']\<newline>''),
                        Invoke (hook (filterredHooks ! 0)) []] st))
            else
              (True,
               emit ((if ENABLE_ECHO then [Put [EOL]] else [])
                     @ map (\<lambda>h. Put (candidate_line (mCurrentValidInput st) h))
                         filterredHooks) st))
         else (True, st))
      else (False, st))"

section \<open>The input accumulator\<close>

text \<open>Lines 97 and 98: \<^verbatim>\<open>'\0'\<close> and \<^verbatim>\<open>'\r'\<close> become \<^verbatim>\<open>'\n'\<close>.\<close>

definition normalise_char :: "int \<Rightarrow> int" where
  "normalise_char c = (if c = 0 \<or> c = 13 then 10 else c)"

text \<open>
  Lines 100 to 110: the echo. The test is on the \<^verbatim>\<open>int\<close>; \<^verbatim>\<open>putchar\<close> writes it
  converted to a character.
\<close>

definition echo :: "DiagTask \<Rightarrow> int \<Rightarrow> DiagTask" where
  "echo st c =
     (if ENABLE_ECHO \<and> c \<noteq> of_char SPECIAL_KEYWORD_TAB \<and> c \<noteq> of_char SPECIAL_KEYWORD_SEPARATOR
         \<and> c \<noteq> of_char SPECIAL_KEYWORD_HELP \<and> c \<noteq> of_char SPECIAL_KEYWORD_REBOOT
      then emit [Put [char_of c]] st
      else st)"

text \<open>
  Lines 136 and 137: the character is stored at index \<open>len\<close> and a terminator behind it.
  Storing the terminator itself leaves a string of length \<open>len\<close>.
\<close>

definition store_char :: "string \<Rightarrow> nat \<Rightarrow> char \<Rightarrow> string" where
  "store_char buf len ch = (if ch = NUL then take len buf else take len buf @ [ch])"

text \<open>
  Lines 140 to 184: the candidates of the extended input decide what happens. \<open>ch\<close> is
  the character stored at index \<open>len\<close>.
\<close>

definition dispatch :: "DiagTask \<Rightarrow> nat \<Rightarrow> char \<Rightarrow> DiagTask" where
  "dispatch st len ch =
     (let filterredHooks = privFindHooks st (mCurrentValidInput st) in
      if length filterredHooks = 0
      then reset_input st
      else if length filterredHooks = 1
              \<and> length (mCurrentValidInput st) \<ge> length (name (filterredHooks ! 0))
      then
        (case strchr (name (filterredHooks ! 0)) SPECIAL_KEYWORD_WILDCARD of
           Some argIdx \<Rightarrow>
             (if ch = EOL
              then
                (let stripped = take len (mCurrentValidInput st) in
                 reset_input
                   (emit ((if ENABLE_ECHO then [Put [EOL]] else [])
                          @ [Invoke (hook (filterredHooks ! 0)) (drop argIdx stripped)])
                      (st\<lparr>mCurrentValidInput := stripped\<rparr>)))
              else st)
         | None \<Rightarrow>
             reset_input
               (emit ((if ENABLE_ECHO then [Put [EOL]] else [])
                      @ [Invoke (hook (filterredHooks ! 0)) []]) st))
      else st)"

text \<open>
  \<^verbatim>\<open>process\<close>; \<open>got\<close> is what \<^verbatim>\<open>mGetchar()\<close> returns on this call. The
  \<^verbatim>\<open>while\<close> loop is left by \<^verbatim>\<open>break\<close> on every path of its first round. Where the
  \<^verbatim>\<open>int\<close> is passed as a \<^verbatim>\<open>char\<close> or stored in the input, its low eight bits are
  taken (\<open>char_of\<close>).
\<close>

definition process :: "DiagTask \<Rightarrow> int \<Rightarrow> DiagTask outcome" where
  "process st got =
     (if \<not> mGetchar st then Returns st
      else if got < 0 then Returns st
      else
        (let c = normalise_char got;
             st1 = echo st c;
             len = length (mCurrentValidInput st1)
         in
           if len = DIAGTASK_MAX_HOOK_INPUT_LEN
           then Returns (reset_input st1)
           else
             (case (if mCurrentValidInput st1 = []
                    then privCheckAndProcessSpecialChars st1 (char_of c)
                    else Returns (False, st1)) of
                Hangs s \<Rightarrow> Hangs s
              | Returns (True, st2) \<Rightarrow> Returns st2
              | Returns (False, st2) \<Rightarrow>
                  (case processTabCompetion st2 (char_of c) of
                     (True, st3) \<Rightarrow> Returns st3
                   | (False, st3) \<Rightarrow>
                       Returns
                         (dispatch
                            (st3\<lparr>mCurrentValidInput :=
                                   store_char (mCurrentValidInput st3) len (char_of c)\<rparr>)
                            len (char_of c))))))"

text \<open>The state a call ends in, and feeding a whole sequence of received values.\<close>

fun final :: "DiagTask outcome \<Rightarrow> DiagTask" where
  "final (Returns st) = st"
| "final (Hangs st) = st"

fun feed :: "DiagTask \<Rightarrow> int list \<Rightarrow> DiagTask outcome" where
  "feed st [] = Returns st"
| "feed st (c # cs) =
     (case process st c of
        Returns st' \<Rightarrow> feed st' cs
      | Hangs st' \<Rightarrow> Hangs st')"

text \<open>The callbacks called in a trace, in order, each with its argument.\<close>

fun invoked :: "event list \<Rightarrow> (hook_fn \<times> string) list" where
  "invoked [] = []"
| "invoked (Invoke f a # es) = (f, a) # invoked es"
| "invoked (e # es) = invoked es"

section \<open>Notions used in the properties\<close>

text \<open>
  The input after lines 136 and 137, for the received value \<open>got\<close>, and the state there:
  the echo is written and the character is stored behind the input typed so far.
\<close>

definition extended :: "DiagTask \<Rightarrow> int \<Rightarrow> string" where
  "extended st got =
     store_char (mCurrentValidInput st) (length (mCurrentValidInput st))
       (char_of (normalise_char got))"

definition appended :: "DiagTask \<Rightarrow> int \<Rightarrow> DiagTask" where
  "appended st got = (echo st (normalise_char got))\<lparr>mCurrentValidInput := extended st got\<rparr>"

text \<open>
  A received value reaches line 136 when a character was read, the input is not at its
  capacity, no special command takes the character and it is no request for completion.
\<close>

definition accumulates :: "DiagTask \<Rightarrow> int \<Rightarrow> bool" where
  "accumulates st got =
     (mGetchar st \<and> 0 \<le> got
      \<and> length (mCurrentValidInput st) \<noteq> DIAGTASK_MAX_HOOK_INPUT_LEN
      \<and> (mCurrentValidInput st \<noteq> []
           \<or> privCheckAndProcessSpecialChars (echo st (normalise_char got))
                 (char_of (normalise_char got))
               = Returns (False, echo st (normalise_char got)))
      \<and> \<not> fst (processTabCompetion (echo st (normalise_char got)) (char_of (normalise_char got))))"

text \<open>The feature bit that guards each trigger in \<^verbatim>\<open>privCheckAndProcessSpecialChars\<close>.\<close>

definition trigger_feature :: "char \<Rightarrow> 32 word" where
  "trigger_feature ch =
     (if ch = SPECIAL_KEYWORD_HELP then feature_Help
      else if ch = SPECIAL_KEYWORD_SEPARATOR then feature_Seperator
      else if ch = SPECIAL_KEYWORD_REBOOT then feature_Reboot
      else if ch = SPECIAL_KEYWORD_SEARCH then feature_Search
      else 0)"

text \<open>
  The invariant of the input: it fits its array, and it is empty or some registered hook
  is still selected by it.
\<close>

definition input_ok :: "DiagTask \<Rightarrow> bool" where
  "input_ok st =
     (length (mCurrentValidInput st) \<le> DIAGTASK_MAX_HOOK_INPUT_LEN
      \<and> (mCurrentValidInput st = [] \<or> privFindHooks st (mCurrentValidInput st) \<noteq> []))"

text \<open>Every registered name fits the array \<^verbatim>\<open>name\<close> of its entry.\<close>

definition names_fit :: "DiagTask \<Rightarrow> bool" where
  "names_fit st = (\<forall>h \<in> set (mHooks st). length (name h) \<le> DIAGTASK_MAX_HOOKNAME_LEN)"

subsection \<open>The matching rule in the specification's words\<close>

text \<open>
  The static length of a hook name is the number of characters in front of its wildcard
  marker, or its full length if it has none. A hook is a candidate for an input when name
  and input agree on the first \<open>min staticLength (length input)\<close> characters.
\<close>

definition staticLength :: "string \<Rightarrow> nat" where
  "staticLength nm = length (takeWhile (\<lambda>c. c \<noteq> SPECIAL_KEYWORD_WILDCARD) nm)"

definition candidate :: "string \<Rightarrow> hookEntry_t \<Rightarrow> bool" where
  "candidate prefixText h =
     (take (min (staticLength (name h)) (length prefixText)) (name h)
      = take (min (staticLength (name h)) (length prefixText)) prefixText)"

definition findCandidates :: "hookEntry_t list \<Rightarrow> string \<Rightarrow> hookEntry_t list" where
  "findCandidates hooks prefixText = filter (candidate prefixText) hooks"

subsection \<open>Example consoles\<close>

text \<open>
  A console with the given hooks and features on which the text \<open>input\<close> has been typed
  and echoed, and hooks to build examples from.
\<close>

definition console :: "hookEntry_t list \<Rightarrow> 32 word \<Rightarrow> string \<Rightarrow> DiagTask" where
  "console hooks features input =
     \<lparr>mHooks = hooks, mFeatures = features, mCurrentValidInput = input, mGetchar = True,
      mUptime = None, mReboot = True, count = 0, trace = map (\<lambda>c. Put [c]) input\<rparr>"

definition hook_abc :: hookEntry_t where
  "hook_abc = \<lparr>name = ''abc'', description = ''first'', hook = 1\<rparr>"

definition hook_abd :: hookEntry_t where
  "hook_abd = \<lparr>name = ''abd'', description = [], hook = 2\<rparr>"

definition hook_cmd :: hookEntry_t where
  "hook_cmd = \<lparr>name = ''cmd *'', description = ''with argument'', hook = 3\<rparr>"

definition hook_mid :: hookEntry_t where
  "hook_mid = \<lparr>name = ''a*b'', description = [], hook = 4\<rparr>"

definition hook_ok :: hookEntry_t where
  "hook_ok = \<lparr>name = ''ok?'', description = [], hook = 5\<rparr>"

definition all_features :: "32 word" where
  "all_features =
     feature_Help OR feature_Seperator OR feature_Search OR feature_Reboot
     OR feature_TabCompletion"

definition long_input :: string where
  "long_input = ''cmd 01234567890123456789012345''"

section \<open>Auxiliary facts\<close>

subsection \<open>Library functions\<close>

lemma fold_push_back:
  "fold (\<lambda>h acc. if P h then acc @ [h] else acc) xs acc0 = acc0 @ filter P xs"
  by (induction xs arbitrary: acc0) simp_all

lemma strncmp_zero_iff: "strncmp s t n = 0 \<longleftrightarrow> take n s = take n t"
  by (induction s t n rule: strncmp.induct) auto

lemma takeWhile_absent: "c \<notin> set s \<Longrightarrow> takeWhile (\<lambda>x. x \<noteq> c) s = s"
  by (induction s) auto

lemma strchr_takeWhile:
  "strchr s c = (if c \<in> set s then Some (length (takeWhile (\<lambda>x. x \<noteq> c) s)) else None)"
  by (induction s) auto

lemma staticLength_le: "staticLength nm \<le> length nm"
  by (simp add: staticLength_def length_takeWhile_le)

lemma of_char_nonneg [simp]: "0 \<le> (of_char ch :: int)"
proof -
  have "(of_char ch :: int) = int (of_char ch)"
    by (simp add: of_nat_of_char)
  then show ?thesis by simp
qed

lemma of_char_not_neg [simp]: "\<not> (of_char ch :: int) < 0"
  by (simp add: not_less)

subsection \<open>Matching\<close>

lemma privFindHooks_filter:
  "privFindHooks st prefix = filter (hook_selected prefix) (mHooks st)"
  by (simp add: privFindHooks_def fold_push_back)

lemma privFindHooks_same_hooks:
  "mHooks s = mHooks t \<Longrightarrow> privFindHooks s prefix = privFindHooks t prefix"
  by (simp add: privFindHooks_filter)

lemma privFindHooks_more_hooks:
  "privFindHooks st prefix \<noteq> []
   \<Longrightarrow> privFindHooks (st\<lparr>mHooks := mHooks st @ [e]\<rparr>) prefix \<noteq> []"
  by (simp add: privFindHooks_filter)

lemma unat_lenHook:
  assumes "length (name h) < 65536"
  shows "unat (lenHook h) = staticLength (name h)"
proof -
  have le: "staticLength (name h) \<le> length (name h)"
    by (rule staticLength_le)
  have "lenHook h = of_nat (staticLength (name h))"
    by (simp add: lenHook_def strchr_takeWhile staticLength_def takeWhile_absent)
  moreover have "staticLength (name h) < 65536"
    using le assms by simp
  ultimately show ?thesis
    by (simp add: unat_of_nat)
qed

lemma unat_min16: "unat (min a b) = min (unat a) (unat b)" for a b :: "16 word"
  by (simp add: min_def word_le_nat_alt)

lemma hook_selected_iff:
  assumes "length (name h) < 65536" and "length prefix < 65536"
  shows "hook_selected prefix h \<longleftrightarrow> candidate prefix h"
  using assms
  by (simp add: hook_selected_def candidate_def Let_def unat_min16 unat_lenHook
      unat_of_nat strncmp_zero_iff)

subsection \<open>The trace and the parts of a state that a step leaves alone\<close>

lemma invoked_append [simp]: "invoked (xs @ ys) = invoked xs @ invoked ys"
  by (induction xs rule: invoked.induct) simp_all

lemma invoked_puts [simp]: "invoked (map (\<lambda>x. Put (f x)) xs) = []"
  by (induction xs) simp_all

lemma echo_fields [simp]:
  "mHooks (echo st c) = mHooks st"
  "mFeatures (echo st c) = mFeatures st"
  "mCurrentValidInput (echo st c) = mCurrentValidInput st"
  "mGetchar (echo st c) = mGetchar st"
  "mUptime (echo st c) = mUptime st"
  "mReboot (echo st c) = mReboot st"
  "count (echo st c) = count st"
  by (simp_all add: echo_def emit_def)

lemma invoked_echo [simp]: "invoked (trace (echo st c)) = invoked (trace st)"
  by (simp add: echo_def emit_def)

lemma appended_fields [simp]:
  "mHooks (appended st got) = mHooks st"
  "mCurrentValidInput (appended st got) = extended st got"
  "count (appended st got) = count st"
  by (simp_all add: appended_def)

lemma privFindHooks_appended [simp]:
  "privFindHooks (appended st got) prefix = privFindHooks st prefix"
  by (rule privFindHooks_same_hooks) simp

lemma take_extended:
  "take (length (mCurrentValidInput st)) (extended st got) = mCurrentValidInput st"
  by (simp add: extended_def store_char_def)

lemma length_extended: "length (extended st got) \<le> Suc (length (mCurrentValidInput st))"
  by (simp add: extended_def store_char_def)

lemma reset_appended: "reset_input (appended st got) = reset_input (echo st (normalise_char got))"
  by (simp add: reset_input_def appended_def)

lemma dispatch_count [simp]: "count (dispatch s l c) = count s"
  by (simp add: dispatch_def Let_def reset_input_def emit_def split: option.split)

subsection \<open>The reserved characters\<close>

lemma normalise_reserved [simp]:
  "normalise_char (of_char SPECIAL_KEYWORD_HELP) = of_char SPECIAL_KEYWORD_HELP"
  "normalise_char (of_char SPECIAL_KEYWORD_SEPARATOR) = of_char SPECIAL_KEYWORD_SEPARATOR"
  "normalise_char (of_char SPECIAL_KEYWORD_SEARCH) = of_char SPECIAL_KEYWORD_SEARCH"
  "normalise_char (of_char SPECIAL_KEYWORD_REBOOT) = of_char SPECIAL_KEYWORD_REBOOT"
  "normalise_char (of_char SPECIAL_KEYWORD_TAB) = of_char SPECIAL_KEYWORD_TAB"
  by (simp_all add: normalise_char_def SPECIAL_KEYWORD_HELP_def SPECIAL_KEYWORD_SEPARATOR_def
      SPECIAL_KEYWORD_SEARCH_def SPECIAL_KEYWORD_REBOOT_def SPECIAL_KEYWORD_TAB_def)

lemma echo_tab [simp]: "echo st (of_char SPECIAL_KEYWORD_TAB) = st"
  by (simp add: echo_def)

lemma echo_help [simp]: "echo st (of_char SPECIAL_KEYWORD_HELP) = st"
  by (simp add: echo_def)

lemma privCheck_trigger_off:
  assumes "ch \<in> {SPECIAL_KEYWORD_HELP, SPECIAL_KEYWORD_SEPARATOR, SPECIAL_KEYWORD_SEARCH,
                 SPECIAL_KEYWORD_REBOOT}"
    and "mFeatures s AND trigger_feature ch = 0"
  shows "privCheckAndProcessSpecialChars s ch = Returns (False, s)"
  using assms
  by (auto simp: privCheckAndProcessSpecialChars_def trigger_feature_def
      SPECIAL_KEYWORD_HELP_def SPECIAL_KEYWORD_SEPARATOR_def
      SPECIAL_KEYWORD_SEARCH_def SPECIAL_KEYWORD_REBOOT_def)

lemma privCheck_tab:
  "privCheckAndProcessSpecialChars s SPECIAL_KEYWORD_TAB = Returns (False, s)"
  by (simp add: privCheckAndProcessSpecialChars_def SPECIAL_KEYWORD_TAB_def
      SPECIAL_KEYWORD_HELP_def SPECIAL_KEYWORD_SEPARATOR_def
      SPECIAL_KEYWORD_SEARCH_def SPECIAL_KEYWORD_REBOOT_def)

lemma tab_not_trigger:
  assumes "ch \<in> {SPECIAL_KEYWORD_HELP, SPECIAL_KEYWORD_SEPARATOR, SPECIAL_KEYWORD_SEARCH,
                 SPECIAL_KEYWORD_REBOOT}"
  shows "processTabCompetion s ch = (False, s)"
  using assms
  by (auto simp: processTabCompetion_def SPECIAL_KEYWORD_TAB_def
      SPECIAL_KEYWORD_HELP_def SPECIAL_KEYWORD_SEPARATOR_def
      SPECIAL_KEYWORD_SEARCH_def SPECIAL_KEYWORD_REBOOT_def)

lemma processTabCompetion_unhandled:
  "\<not> fst (processTabCompetion s ch) \<Longrightarrow> processTabCompetion s ch = (False, s)"
  by (simp add: processTabCompetion_def Let_def split: if_splits)

subsection \<open>The paths through \<^verbatim>\<open>process\<close>\<close>

lemma process_full:
  assumes "mGetchar st" and "0 \<le> got"
    and "length (mCurrentValidInput st) = DIAGTASK_MAX_HOOK_INPUT_LEN"
  shows "process st got = Returns (reset_input (echo st (normalise_char got)))"
  using assms by (simp add: process_def Let_def)

lemma process_accumulates:
  assumes "accumulates st got"
  shows "process st got =
           Returns (dispatch (appended st got) (length (mCurrentValidInput st))
                      (char_of (normalise_char got)))"
proof -
  let ?c = "normalise_char got"
  from assms have g: "mGetchar st" "\<not> got < 0"
    and nf: "length (mCurrentValidInput st) \<noteq> DIAGTASK_MAX_HOOK_INPUT_LEN"
    and sp: "mCurrentValidInput st \<noteq> [] \<or>
             privCheckAndProcessSpecialChars (echo st ?c) (char_of ?c)
             = Returns (False, echo st ?c)"
    and tab: "processTabCompetion (echo st ?c) (char_of ?c) = (False, echo st ?c)"
    by (auto simp: accumulates_def processTabCompetion_unhandled)
  from sp have "(if mCurrentValidInput (echo st ?c) = []
                 then privCheckAndProcessSpecialChars (echo st ?c) (char_of ?c)
                 else Returns (False, echo st ?c)) = Returns (False, echo st ?c)"
    by auto
  with g nf tab show ?thesis
    by (simp add: process_def Let_def appended_def extended_def)
qed

text \<open>The condition \<open>accumulates\<close>, spelled out for the build at hand.\<close>

lemma accumulates_iff:
  "accumulates st got \<longleftrightarrow>
     mGetchar st \<and> 0 \<le> got
     \<and> length (mCurrentValidInput st) \<noteq> DIAGTASK_MAX_HOOK_INPUT_LEN
     \<and> \<not> (mCurrentValidInput st = [] \<and> mFeatures st AND feature_Help \<noteq> 0
            \<and> char_of (normalise_char got) = SPECIAL_KEYWORD_HELP)
     \<and> \<not> (mCurrentValidInput st = [] \<and> mFeatures st AND feature_Seperator \<noteq> 0
            \<and> char_of (normalise_char got) = SPECIAL_KEYWORD_SEPARATOR)
     \<and> \<not> (mCurrentValidInput st = [] \<and> mFeatures st AND feature_Reboot \<noteq> 0
            \<and> mReboot st \<and> char_of (normalise_char got) = SPECIAL_KEYWORD_REBOOT)
     \<and> \<not> (mFeatures st AND feature_TabCompletion \<noteq> 0
            \<and> char_of (normalise_char got) = SPECIAL_KEYWORD_TAB)"
  by (auto simp: accumulates_def privCheckAndProcessSpecialChars_def
      processTabCompetion_def Let_def DIAGTASK_ENABLE_HELP_def DIAGTASK_ENABLE_SEPARATOR_def
      DIAGTASK_ENABLE_REBOOT_def DIAGTASK_ENABLE_SEARCH_def
      DIAGTASK_ENABLE_TAB_COMPLETION_def)

lemma process_tab:
  assumes "mGetchar st" and "mFeatures st AND feature_TabCompletion \<noteq> 0"
    and "length (mCurrentValidInput st) \<noteq> DIAGTASK_MAX_HOOK_INPUT_LEN"
  shows "process st (of_char SPECIAL_KEYWORD_TAB) =
           Returns (snd (processTabCompetion st SPECIAL_KEYWORD_TAB))"
proof -
  have "fst (processTabCompetion st SPECIAL_KEYWORD_TAB)"
    using assms(2)
    by (simp add: processTabCompetion_def DIAGTASK_ENABLE_TAB_COMPLETION_def Let_def)
  then obtain s where "processTabCompetion st SPECIAL_KEYWORD_TAB = (True, s)"
    by (cases "processTabCompetion st SPECIAL_KEYWORD_TAB") auto
  then show ?thesis
    using assms by (simp add: process_def Let_def privCheck_tab)
qed

lemma privCheck_effect:
  "(privCheckAndProcessSpecialChars s ch = Hangs s'
      \<longrightarrow> mHooks s' = mHooks s \<and> mCurrentValidInput s' = mCurrentValidInput s)
   \<and> (privCheckAndProcessSpecialChars s ch = Returns (True, s')
      \<longrightarrow> mHooks s' = mHooks s \<and> mCurrentValidInput s' = [])
   \<and> (privCheckAndProcessSpecialChars s ch = Returns (False, s') \<longrightarrow> s' = s)"
  by (auto simp: privCheckAndProcessSpecialChars_def reset_input_def emit_def privHelp_def
      privDisplaySeparator_def Let_def split: if_splits)

lemma processTab_effect:
  "processTabCompetion s ch = (b, s')
   \<Longrightarrow> mHooks s' = mHooks s
       \<and> (mCurrentValidInput s' = [] \<or> mCurrentValidInput s' = mCurrentValidInput s)
       \<and> (\<not> b \<longrightarrow> s' = s)"
  by (auto simp: processTabCompetion_def reset_input_def emit_def Let_def split: if_splits)

lemma dispatch_effect:
  "mHooks (dispatch s l ch) = mHooks s
   \<and> (mCurrentValidInput (dispatch s l ch) = []
       \<or> (mCurrentValidInput (dispatch s l ch) = mCurrentValidInput s
           \<and> privFindHooks s (mCurrentValidInput s) \<noteq> []))"
  by (auto simp: dispatch_def reset_input_def emit_def Let_def split: option.splits)

lemma process_effect:
  "mHooks (final (process st got)) = mHooks st
   \<and> (mCurrentValidInput (final (process st got)) = []
       \<or> mCurrentValidInput (final (process st got)) = mCurrentValidInput st
       \<or> (length (mCurrentValidInput st) \<noteq> DIAGTASK_MAX_HOOK_INPUT_LEN
           \<and> mCurrentValidInput (final (process st got)) = extended st got
           \<and> privFindHooks st (extended st got) \<noteq> []))"
proof (cases "mGetchar st \<and> 0 \<le> got")
  case False
  then show ?thesis by (auto simp: process_def)
next
  case reads: True
  let ?c = "normalise_char got"
  let ?s1 = "echo st ?c"
  show ?thesis
  proof (cases "length (mCurrentValidInput st) = DIAGTASK_MAX_HOOK_INPUT_LEN")
    case True
    with reads show ?thesis by (simp add: process_def Let_def reset_input_def)
  next
    case nfull: False
    let ?sp = "if mCurrentValidInput ?s1 = []
               then privCheckAndProcessSpecialChars ?s1 (char_of ?c)
               else Returns (False, ?s1)"
    show ?thesis
    proof (cases ?sp)
      case (Hangs s)
      then have "process st got = Hangs s"
        using reads nfull by (simp add: process_def Let_def)
      moreover have "mHooks s = mHooks st \<and> mCurrentValidInput s = mCurrentValidInput st"
        using Hangs privCheck_effect [of ?s1 "char_of ?c" s] by (auto split: if_splits)
      ultimately show ?thesis by simp
    next
      case (Returns r)
      obtain b s2 where r: "r = (b, s2)" by (cases r)
      show ?thesis
      proof (cases b)
        case handled: True
        then have "process st got = Returns s2"
          using reads nfull Returns r by (simp add: process_def Let_def)
        moreover have "mHooks s2 = mHooks st \<and> mCurrentValidInput s2 = []"
          using Returns r handled privCheck_effect [of ?s1 "char_of ?c" s2]
          by (auto split: if_splits)
        ultimately show ?thesis by simp
      next
        case unhandled: False
        have s2: "s2 = ?s1"
          using Returns r unhandled privCheck_effect [of ?s1 "char_of ?c" s2]
          by (auto split: if_splits)
        obtain t s3 where tab: "processTabCompetion ?s1 (char_of ?c) = (t, s3)"
          by (cases "processTabCompetion ?s1 (char_of ?c)")
        note te = processTab_effect [OF tab]
        show ?thesis
        proof (cases t)
          case True
          then have "process st got = Returns s3"
            using reads nfull Returns r unhandled s2 tab
            by (simp add: process_def Let_def)
          then show ?thesis using te by auto
        next
          case False
          with te have s3: "s3 = ?s1" by simp
          have "process st got =
                  Returns (dispatch (appended st got) (length (mCurrentValidInput st))
                             (char_of ?c))"
            using reads nfull Returns r unhandled s2 tab False s3
            by (simp add: process_def Let_def appended_def extended_def)
          then show ?thesis
            using dispatch_effect [of "appended st got" "length (mCurrentValidInput st)"
                "char_of ?c"] nfull
            by auto
        qed
      qed
    qed
  qed
qed

lemma input_ok_registerHook:
  "input_ok st \<Longrightarrow> input_ok (snd (registerHook st nm hk desc))"
  by (auto simp: input_ok_def registerHook_def Let_def privFindHooks_more_hooks
      split: option.splits)

lemma input_ok_process:
  assumes "input_ok st"
  shows "input_ok (final (process st got))"
proof -
  let ?r = "final (process st got)"
  have h: "mHooks ?r = mHooks st"
    using process_effect [of st got] by simp
  have f: "privFindHooks ?r x = privFindHooks st x" for x
    by (rule privFindHooks_same_hooks) (rule h)
  from process_effect [of st got] consider
      "mCurrentValidInput ?r = []"
    | "mCurrentValidInput ?r = mCurrentValidInput st"
    | "length (mCurrentValidInput st) \<noteq> DIAGTASK_MAX_HOOK_INPUT_LEN"
      "mCurrentValidInput ?r = extended st got" "privFindHooks st (extended st got) \<noteq> []"
    by blast
  then show ?thesis
  proof cases
    case 1
    then show ?thesis by (simp add: input_ok_def)
  next
    case 2
    then show ?thesis using assms by (simp add: input_ok_def f)
  next
    case 3
    moreover have "length (extended st got) \<le> DIAGTASK_MAX_HOOK_INPUT_LEN"
      using length_extended [of st got] 3(1) assms by (simp add: input_ok_def)
    ultimately show ?thesis by (simp add: input_ok_def f)
  qed
qed

lemma names_fit_new: "names_fit (DiagTask3 getch uptime reboot)"
  by (simp add: names_fit_def DiagTask3_def)

lemma names_fit_registerHook:
  "names_fit st \<Longrightarrow> names_fit (snd (registerHook st nm hk desc))"
  by (auto simp: names_fit_def registerHook_def Let_def split: option.splits)

lemma names_fit_process: "names_fit st \<Longrightarrow> names_fit (final (process st got))"
  using process_effect [of st got] by (simp add: names_fit_def)

lemma names_fit_short:
  "names_fit st \<Longrightarrow> \<forall>h \<in> set (mHooks st). length (name h) < 65536"
  by (auto simp: names_fit_def DIAGTASK_MAX_HOOKNAME_LEN_def)

lemma input_ok_new: "input_ok (DiagTask3 getch uptime reboot)"
  by (simp add: input_ok_def DiagTask3_def)

lemma input_ok_feed: "input_ok st \<Longrightarrow> input_ok (final (feed st cs))"
proof (induction cs arbitrary: st)
  case Nil
  then show ?case by simp
next
  case (Cons c cs)
  from Cons.prems have ok: "input_ok (final (process st c))"
    by (rule input_ok_process)
  show ?case
  proof (cases "process st c")
    case (Returns s)
    with ok Cons.IH [of s] show ?thesis by simp
  next
    case (Hangs s)
    with ok show ?thesis by simp
  qed
qed

section \<open>Properties of the console\<close>

subsection \<open>Wildcard hooks\<close>

text \<open>
  C1, as the code has it. Let the received character reach the input (\<open>accumulates\<close>), and
  let the extended input select exactly one hook, whose name holds the wildcard marker at
  offset \<open>argIdx\<close>. Then \<^verbatim>\<open>process\<close> calls the hook's callback if and only if the
  character just stored is the line end and the extended input is at least as long as the
  hook's whole name (\<^verbatim>\<open>strlen\<close> of the name, the marker and all text behind it
  included), not merely as long as its static part. On the call the line end is stripped,
  the argument is the stripped input from offset \<open>argIdx\<close> on, and the input is reset.
  In every other case no callback is called and the extended input is kept.
\<close>

theorem wildcard_hook_called_on_line_end:
  assumes acc: "accumulates st got"
    and one: "privFindHooks st (extended st got) = [h]"
    and wild: "strchr (name h) SPECIAL_KEYWORD_WILDCARD = Some argIdx"
  shows "process st got =
           Returns
             (if char_of (normalise_char got) = EOL
                 \<and> length (name h) \<le> length (extended st got)
              then (echo st (normalise_char got))
                     \<lparr>mCurrentValidInput := [],
                      trace := trace (echo st (normalise_char got))
                               @ [Put [EOL],
                                  Invoke (hook h) (drop argIdx (mCurrentValidInput st))]\<rparr>
              else appended st got)
         \<and> invoked (trace (final (process st got))) =
             invoked (trace st)
             @ (if char_of (normalise_char got) = EOL
                   \<and> length (name h) \<le> length (extended st got)
                then [(hook h, drop argIdx (mCurrentValidInput st))] else [])"
proof -
  have d: "dispatch (appended st got) (length (mCurrentValidInput st))
             (char_of (normalise_char got)) =
           (if char_of (normalise_char got) = EOL
               \<and> length (name h) \<le> length (extended st got)
            then (echo st (normalise_char got))
                   \<lparr>mCurrentValidInput := [],
                    trace := trace (echo st (normalise_char got))
                             @ [Put [EOL],
                                Invoke (hook h) (drop argIdx (mCurrentValidInput st))]\<rparr>
            else appended st got)"
    using one wild
    apply (simp add: dispatch_def Let_def take_extended ENABLE_ECHO_def)
    apply (simp add: reset_input_def emit_def appended_def)
    done
  show ?thesis
    unfolding process_accumulates [OF acc] d
    by (simp add: appended_def)
qed

text \<open>
  The hook \<^verbatim>\<open>cmd *\<close>: after \<^verbatim>\<open>cmd foo\<close> a carriage return calls it with \<^verbatim>\<open>foo\<close>.
\<close>

theorem wildcard_hook_called_on_line_end_witness:
  "accumulates (console [hook_abc, hook_abd, hook_cmd] all_features ''cmd foo'') 13
   \<and> privFindHooks (console [hook_abc, hook_abd, hook_cmd] all_features ''cmd foo'')
        (extended (console [hook_abc, hook_abd, hook_cmd] all_features ''cmd foo'') 13)
      = [hook_cmd]
   \<and> strchr (name hook_cmd) SPECIAL_KEYWORD_WILDCARD = Some 4
   \<and> process (console [hook_abc, hook_abd, hook_cmd] all_features ''cmd foo'') 13
      = Returns
          ((console [hook_abc, hook_abd, hook_cmd] all_features [])
             \<lparr>trace := map (\<lambda>c. Put [c]) ''cmd foo''
                        @ [Put ''\<newline>'', Put ''\<newline>'', Invoke 3 ''foo'']\<rparr>)
   \<and> invoked (trace (final
        (process (console [hook_abc, hook_abd, hook_cmd] all_features ''cmd foo'') 13)))
      = [(3, ''foo'')]"
proof -
  let ?st = "console [hook_abc, hook_abd, hook_cmd] all_features ''cmd foo''"
  have acc: "accumulates ?st 13"
    by code_simp
  have one: "privFindHooks ?st (extended ?st 13) = [hook_cmd]"
    by code_simp
  have wild: "strchr (name hook_cmd) SPECIAL_KEYWORD_WILDCARD = Some 4"
    by code_simp
  have val: "(if char_of (normalise_char 13) = EOL
                 \<and> length (name hook_cmd) \<le> length (extended ?st 13)
              then (echo ?st (normalise_char 13))
                     \<lparr>mCurrentValidInput := [],
                      trace := trace (echo ?st (normalise_char 13))
                               @ [Put [EOL],
                                  Invoke (hook hook_cmd) (drop 4 (mCurrentValidInput ?st))]\<rparr>
              else appended ?st 13)
             = (console [hook_abc, hook_abd, hook_cmd] all_features [])
                 \<lparr>trace := map (\<lambda>c. Put [c]) ''cmd foo''
                            @ [Put ''\<newline>'', Put ''\<newline>'', Invoke 3 ''foo'']\<rparr>"
    by code_simp
  have calls: "invoked (trace ?st)
             @ (if char_of (normalise_char 13) = EOL
                   \<and> length (name hook_cmd) \<le> length (extended ?st 13)
                then [(hook hook_cmd, drop 4 (mCurrentValidInput ?st))] else [])
             = [(3, ''foo'')]"
    by code_simp
  from wildcard_hook_called_on_line_end [OF acc one wild]
  show ?thesis
    unfolding val calls using acc one wild by simp
qed

text \<open>
  C1 as stated fails. The hook \<^verbatim>\<open>a*b\<close> has static length 1. On a console where
  \<^verbatim>\<open>a\<close> was typed, a line end gives the input \<^verbatim>\<open>a\n\<close>: the hook is its only
  candidate, the input is longer than the static length and ends in the line end, yet no
  callback is called and the input is kept, because the input is shorter than the name.
\<close>

theorem wildcard_static_length_counterexample:
  "feed (console [hook_mid] feature_None []) [of_char CHR ''a'']
     = Returns (console [hook_mid] feature_None ''a'')
   \<and> privFindHooks (console [hook_mid] feature_None ''a'')
        (extended (console [hook_mid] feature_None ''a'') 10) = [hook_mid]
   \<and> strchr (name hook_mid) SPECIAL_KEYWORD_WILDCARD = Some 1
   \<and> staticLength (name hook_mid) = 1
   \<and> extended (console [hook_mid] feature_None ''a'') 10 = ''a\<newline>''
   \<and> char_of (normalise_char 10) = EOL
   \<and> process (console [hook_mid] feature_None ''a'') 10
      = Returns ((console [hook_mid] feature_None ''a\<newline>'')
                   \<lparr>trace := [Put ''a'', Put ''\<newline>'']\<rparr>)
   \<and> invoked (trace (final (process (console [hook_mid] feature_None ''a'') 10))) = []"
  by code_simp

subsection \<open>Hooks without wildcard\<close>

text \<open>
  C2. Let the received character reach the input. If the extended input selects exactly
  one hook, that hook has no wildcard marker and the input is at least as long as its
  name, the callback is called at once with the empty string and the input is reset. If
  two or more hooks are selected, or the input is shorter than the static length of the
  only one selected, no callback is called and the extended input is kept.
\<close>

theorem plain_hook_called_when_complete:
  assumes acc: "accumulates st got"
  shows "(privFindHooks st (extended st got) = [h]
          \<and> strchr (name h) SPECIAL_KEYWORD_WILDCARD = None
          \<and> length (name h) \<le> length (extended st got)
          \<longrightarrow> process st got =
                Returns (reset_input
                           (emit [Put [EOL], Invoke (hook h) []] (echo st (normalise_char got)))))
       \<and> ((2 \<le> length (privFindHooks st (extended st got))
            \<or> (privFindHooks st (extended st got) = [h]
                \<and> length (extended st got) < staticLength (name h)))
          \<longrightarrow> process st got = Returns (appended st got))"
proof -
  have sl: "staticLength (name h) \<le> length (name h)"
    by (rule staticLength_le)
  show ?thesis
    unfolding process_accumulates [OF acc]
    using sl
    apply (auto simp: dispatch_def Let_def ENABLE_ECHO_def)
    apply (simp_all add: reset_input_def emit_def appended_def)
    done
qed

text \<open>
  With the hooks \<^verbatim>\<open>abc\<close> and \<^verbatim>\<open>abd\<close>: \<^verbatim>\<open>b\<close> after \<^verbatim>\<open>a\<close> leaves both
  selected and calls nothing, \<^verbatim>\<open>c\<close> after \<^verbatim>\<open>ab\<close> calls the first, and feeding
  \<^verbatim>\<open>abcabd\<close> calls one after the other.
\<close>

theorem plain_hook_called_when_complete_witness:
  "accumulates (console [hook_abc, hook_abd, hook_cmd] all_features ''ab'') 99
   \<and> privFindHooks (console [hook_abc, hook_abd, hook_cmd] all_features ''ab'')
        (extended (console [hook_abc, hook_abd, hook_cmd] all_features ''ab'') 99)
      = [hook_abc]
   \<and> process (console [hook_abc, hook_abd, hook_cmd] all_features ''ab'') 99
      = Returns ((console [hook_abc, hook_abd, hook_cmd] all_features [])
                   \<lparr>trace := [Put ''a'', Put ''b'', Put ''c'', Put ''\<newline>'', Invoke 1 []]\<rparr>)
   \<and> accumulates (console [hook_abc, hook_abd, hook_cmd] all_features ''a'') 98
   \<and> privFindHooks (console [hook_abc, hook_abd, hook_cmd] all_features ''a'')
        (extended (console [hook_abc, hook_abd, hook_cmd] all_features ''a'') 98)
      = [hook_abc, hook_abd]
   \<and> process (console [hook_abc, hook_abd, hook_cmd] all_features ''a'') 98
      = Returns (console [hook_abc, hook_abd, hook_cmd] all_features ''ab'')
   \<and> invoked (trace (final
        (feed (console [hook_abc, hook_abd, hook_cmd] all_features [])
           (map of_char ''abcabd''))))
      = [(1, []), (2, [])]"
proof -
  let ?hooks = "[hook_abc, hook_abd, hook_cmd]"
  let ?ab = "console ?hooks all_features ''ab''"
  let ?a = "console ?hooks all_features ''a''"
  have acc1: "accumulates ?ab 99"
    by code_simp
  have one: "privFindHooks ?ab (extended ?ab 99) = [hook_abc]"
    by code_simp
  have plain: "strchr (name hook_abc) SPECIAL_KEYWORD_WILDCARD = None"
    by code_simp
  have len: "length (name hook_abc) \<le> length (extended ?ab 99)"
    by code_simp
  have v1: "reset_input (emit [Put [EOL], Invoke (hook hook_abc) []]
              (echo ?ab (normalise_char 99)))
            = (console ?hooks all_features [])
                \<lparr>trace := [Put ''a'', Put ''b'', Put ''c'', Put ''\<newline>'', Invoke 1 []]\<rparr>"
    by code_simp
  have acc2: "accumulates ?a 98"
    by code_simp
  have two: "privFindHooks ?a (extended ?a 98) = [hook_abc, hook_abd]"
    by code_simp
  have v2: "appended ?a 98 = console ?hooks all_features ''ab''"
    by code_simp
  have run: "invoked (trace (final (feed (console ?hooks all_features [])
               (map of_char ''abcabd'')))) = [(1, []), (2, [])]"
    by code_simp
  have p1: "process ?ab 99 =
              Returns (reset_input (emit [Put [EOL], Invoke (hook hook_abc) []]
                         (echo ?ab (normalise_char 99))))"
    using plain_hook_called_when_complete [OF acc1, of hook_abc] one plain len by simp
  have p2: "process ?a 98 = Returns (appended ?a 98)"
    using plain_hook_called_when_complete [OF acc2, of hook_abc] two by simp
  show ?thesis
    using acc1 one acc2 two run p1 p2 unfolding v1 v2 by simp
qed

subsection \<open>The candidates of an input\<close>

text \<open>
  C3. \<^verbatim>\<open>privFindHooks\<close> returns exactly the registered hooks, in the order of
  registration, whose name agrees with the input on the first
  \<open>min staticLength (length input)\<close> characters. The lengths are held in
  \<^verbatim>\<open>uint16_t\<close>, so names and input are taken to be shorter than \<open>2 ^ 16\<close>
  characters: every registered name is (\<open>names_fit_registerHook\<close>, \<open>names_fit_short\<close>),
  and the only input the console passes is its own, of at most 30 characters.
\<close>

theorem privFindHooks_findCandidates:
  assumes "\<forall>h \<in> set (mHooks st). length (name h) < 65536"
    and "length prefix < 65536"
  shows "privFindHooks st prefix = findCandidates (mHooks st) prefix"
proof -
  have "filter (hook_selected prefix) (mHooks st) = filter (candidate prefix) (mHooks st)"
    using assms by (intro filter_cong) (auto simp: hook_selected_iff)
  then show ?thesis
    by (simp add: privFindHooks_filter findCandidates_def)
qed

theorem privFindHooks_findCandidates_witness:
  "privFindHooks (console [hook_abc, hook_cmd, hook_abd] all_features ''ab'') ''ab''
     = findCandidates [hook_abc, hook_cmd, hook_abd] ''ab''
   \<and> findCandidates [hook_abc, hook_cmd, hook_abd] ''ab'' = [hook_abc, hook_abd]
   \<and> findCandidates [hook_abc, hook_cmd, hook_abd] ''cmd set 1'' = [hook_cmd]
   \<and> findCandidates [hook_abc, hook_cmd, hook_abd] [] = [hook_abc, hook_cmd, hook_abd]"
proof -
  let ?st = "console [hook_abc, hook_cmd, hook_abd] all_features ''ab''"
  have names: "\<forall>h \<in> set (mHooks ?st). length (name h) < 65536"
    by (simp add: console_def hook_abc_def hook_cmd_def hook_abd_def)
  have input: "length ''ab'' < (65536 :: nat)"
    by simp
  have hooks: "mHooks ?st = [hook_abc, hook_cmd, hook_abd]"
    by (simp add: console_def)
  have vals: "findCandidates [hook_abc, hook_cmd, hook_abd] ''ab'' = [hook_abc, hook_abd]
      \<and> findCandidates [hook_abc, hook_cmd, hook_abd] ''cmd set 1'' = [hook_cmd]
      \<and> findCandidates [hook_abc, hook_cmd, hook_abd] [] = [hook_abc, hook_cmd, hook_abd]"
    by code_simp
  from privFindHooks_findCandidates [OF names input] show ?thesis
    using vals by (simp add: hooks)
qed

subsection \<open>Reserved characters inside a command\<close>

text \<open>
  C4, as the code has it. Let \<open>ch\<close> be one of the triggers for help, separator, search
  and reboot, received while the input is not empty or while the feature bit of \<open>ch\<close> is
  off. Then no special command runs: below the capacity of the input the character is
  stored behind the input and the extended input is matched against the hooks like any
  other text; at capacity the character is dropped and the input reset, as for any other
  character. The separator counter keeps its value, and with the
  feature bit off \<^verbatim>\<open>privCheckAndProcessSpecialChars\<close> reports the character as not handled
  and does nothing.
\<close>

theorem trigger_is_text_unless_first_and_enabled:
  assumes g: "mGetchar st"
    and trig: "ch \<in> {SPECIAL_KEYWORD_HELP, SPECIAL_KEYWORD_SEPARATOR, SPECIAL_KEYWORD_SEARCH,
                 SPECIAL_KEYWORD_REBOOT}"
    and off: "mCurrentValidInput st \<noteq> [] \<or> mFeatures st AND trigger_feature ch = 0"
  shows "process st (of_char ch) =
           Returns
             (if length (mCurrentValidInput st) = DIAGTASK_MAX_HOOK_INPUT_LEN
              then reset_input (echo st (of_char ch))
              else dispatch (appended st (of_char ch)) (length (mCurrentValidInput st)) ch)
         \<and> mCurrentValidInput (appended st (of_char ch)) = mCurrentValidInput st @ [ch]
         \<and> count (final (process st (of_char ch))) = count st
         \<and> (mFeatures st AND trigger_feature ch = 0
              \<longrightarrow> privCheckAndProcessSpecialChars st ch = Returns (False, st))"
proof -
  have n: "normalise_char (of_char ch) = of_char ch"
    using trig by auto
  have nz: "ch \<noteq> NUL"
    using trig
    by (auto simp: NUL_def SPECIAL_KEYWORD_HELP_def SPECIAL_KEYWORD_SEPARATOR_def
        SPECIAL_KEYWORD_SEARCH_def SPECIAL_KEYWORD_REBOOT_def)
  have ext: "mCurrentValidInput (appended st (of_char ch)) = mCurrentValidInput st @ [ch]"
    using nz by (simp add: extended_def n store_char_def)
  show ?thesis
  proof (cases "length (mCurrentValidInput st) = DIAGTASK_MAX_HOOK_INPUT_LEN")
    case True
    then have "process st (of_char ch) = Returns (reset_input (echo st (of_char ch)))"
      using g process_full [of st "of_char ch"] by (simp add: n)
    then show ?thesis
      using True ext trig by (simp add: reset_input_def privCheck_trigger_off)
  next
    case False
    have "accumulates st (of_char ch)"
      using g False off trig
      by (auto simp: accumulates_def n privCheck_trigger_off tab_not_trigger)
    from process_accumulates [OF this] show ?thesis
      using False ext trig by (simp add: n privCheck_trigger_off)
  qed
qed

text \<open>
  The hook \<^verbatim>\<open>ok?\<close> is called by the question mark behind \<^verbatim>\<open>ok\<close> although the help
  feature is on, and no help is printed.
\<close>

theorem trigger_is_text_unless_first_and_enabled_witness:
  "mGetchar (console [hook_ok] all_features ''ok'')
   \<and> mCurrentValidInput (console [hook_ok] all_features ''ok'') = ''ok''
   \<and> mFeatures (console [hook_ok] all_features ''ok'') AND feature_Help = feature_Help
   \<and> process (console [hook_ok] all_features ''ok'') (of_char SPECIAL_KEYWORD_HELP)
      = Returns ((console [hook_ok] all_features [])
                   \<lparr>trace := [Put ''o'', Put ''k'', Put ''\<newline>'', Invoke 5 []]\<rparr>)
   \<and> mFeatures (console [hook_ok] feature_TabCompletion []) AND feature_Help = 0
   \<and> process (console [hook_ok] feature_TabCompletion []) (of_char SPECIAL_KEYWORD_HELP)
      = Returns (console [hook_ok] feature_TabCompletion [])"
proof -
  let ?st = "console [hook_ok] all_features ''ok''"
  let ?e = "console [hook_ok] feature_TabCompletion []"
  have ge: "mGetchar ?e"
    by (simp add: console_def)
  have offe: "mCurrentValidInput ?e \<noteq> []
             \<or> mFeatures ?e AND trigger_feature SPECIAL_KEYWORD_HELP = 0"
    by code_simp
  have vale: "(if length (mCurrentValidInput ?e) = DIAGTASK_MAX_HOOK_INPUT_LEN
              then reset_input (echo ?e (of_char SPECIAL_KEYWORD_HELP))
              else dispatch (appended ?e (of_char SPECIAL_KEYWORD_HELP))
                     (length (mCurrentValidInput ?e)) SPECIAL_KEYWORD_HELP)
             = ?e"
    by code_simp
  have bitse: "mFeatures ?e AND feature_Help = 0"
    by code_simp
  have g: "mGetchar ?st"
    by (simp add: console_def)
  have trig: "SPECIAL_KEYWORD_HELP \<in> {SPECIAL_KEYWORD_HELP, SPECIAL_KEYWORD_SEPARATOR,
                 SPECIAL_KEYWORD_SEARCH, SPECIAL_KEYWORD_REBOOT}"
    by simp
  have off: "mCurrentValidInput ?st \<noteq> []
             \<or> mFeatures ?st AND trigger_feature SPECIAL_KEYWORD_HELP = 0"
    by (simp add: console_def)
  have val: "(if length (mCurrentValidInput ?st) = DIAGTASK_MAX_HOOK_INPUT_LEN
              then reset_input (echo ?st (of_char SPECIAL_KEYWORD_HELP))
              else dispatch (appended ?st (of_char SPECIAL_KEYWORD_HELP))
                     (length (mCurrentValidInput ?st)) SPECIAL_KEYWORD_HELP)
             = (console [hook_ok] all_features [])
                 \<lparr>trace := [Put ''o'', Put ''k'', Put ''\<newline>'', Invoke 5 []]\<rparr>"
    by code_simp
  have bits: "mFeatures ?st AND feature_Help = feature_Help"
    by code_simp
  from trigger_is_text_unless_first_and_enabled [OF g trig off]
    trigger_is_text_unless_first_and_enabled [OF ge trig offe]
  show ?thesis
    unfolding val vale using g bits bitse by (simp add: console_def)
qed

text \<open>
  C4 as stated fails when the input is at its capacity. With the hook \<^verbatim>\<open>cmd *\<close>, thirty
  characters can be typed. The input is then not empty, and a question mark is not stored
  behind it: the input is reset.
\<close>

theorem trigger_at_capacity_counterexample:
  "feed (console [hook_cmd] all_features []) (map of_char long_input)
     = Returns (console [hook_cmd] all_features long_input)
   \<and> mCurrentValidInput (console [hook_cmd] all_features long_input) = long_input
   \<and> long_input \<noteq> []
   \<and> process (console [hook_cmd] all_features long_input) (of_char SPECIAL_KEYWORD_HELP)
      = Returns ((console [hook_cmd] all_features [])
                   \<lparr>trace := map (\<lambda>c. Put [c]) long_input\<rparr>)
   \<and> mCurrentValidInput
        (final (process (console [hook_cmd] all_features long_input)
                  (of_char SPECIAL_KEYWORD_HELP)))
      \<noteq> long_input @ [SPECIAL_KEYWORD_HELP]"
  by code_simp

subsection \<open>Tab completion\<close>

text \<open>
  C5, as the code has it. Let the completion feature be on and a tab be received. Below
  the capacity of the input, \<^verbatim>\<open>process\<close> ends with what \<^verbatim>\<open>processTabCompetion\<close>
  leaves: with an empty input nothing changes; with exactly one candidate its name is
  printed, its callback is called with the empty string and the input is reset; with two
  or more candidates no callback is called and the input stays as it is. At capacity the
  tab is dropped and the input reset, and no callback is called. In no case is the tab
  stored in the input.
\<close>

theorem tab_completion_below_capacity:
  assumes g: "mGetchar st" and tab: "mFeatures st AND feature_TabCompletion \<noteq> 0"
  shows "(length (mCurrentValidInput st) \<noteq> DIAGTASK_MAX_HOOK_INPUT_LEN
          \<longrightarrow> process st (of_char SPECIAL_KEYWORD_TAB) =
                Returns (snd (processTabCompetion st SPECIAL_KEYWORD_TAB)))
       \<and> (mCurrentValidInput st = []
          \<longrightarrow> process st (of_char SPECIAL_KEYWORD_TAB) = Returns st)
       \<and> (mCurrentValidInput st \<noteq> []
          \<and> length (mCurrentValidInput st) \<noteq> DIAGTASK_MAX_HOOK_INPUT_LEN
          \<and> privFindHooks st (mCurrentValidInput st) = [h]
          \<longrightarrow> process st (of_char SPECIAL_KEYWORD_TAB) =
                Returns (reset_input
                           (emit [Put (''['' @ name h @ '']\<newline>''), Invoke (hook h) []] st)))
       \<and> (length (mCurrentValidInput st) \<noteq> DIAGTASK_MAX_HOOK_INPUT_LEN
          \<and> 2 \<le> length (privFindHooks st (mCurrentValidInput st))
          \<longrightarrow> mCurrentValidInput (final (process st (of_char SPECIAL_KEYWORD_TAB)))
                = mCurrentValidInput st
              \<and> invoked (trace (final (process st (of_char SPECIAL_KEYWORD_TAB))))
                = invoked (trace st))
       \<and> (length (mCurrentValidInput st) = DIAGTASK_MAX_HOOK_INPUT_LEN
          \<longrightarrow> process st (of_char SPECIAL_KEYWORD_TAB) = Returns (reset_input st))
       \<and> (mCurrentValidInput (final (process st (of_char SPECIAL_KEYWORD_TAB))) = []
          \<or> mCurrentValidInput (final (process st (of_char SPECIAL_KEYWORD_TAB)))
             = mCurrentValidInput st)"
proof (cases "length (mCurrentValidInput st) = DIAGTASK_MAX_HOOK_INPUT_LEN")
  case True
  then have "process st (of_char SPECIAL_KEYWORD_TAB) = Returns (reset_input st)"
    using g process_full [of st "of_char SPECIAL_KEYWORD_TAB"] by simp
  with True show ?thesis
    by (auto simp: reset_input_def DIAGTASK_MAX_HOOK_INPUT_LEN_def
        DIAGTASK_MAX_HOOKNAME_LEN_def)
next
  case False
  note p = process_tab [OF g tab False]
  show ?thesis
    unfolding p using False tab
    by (auto simp: processTabCompetion_def DIAGTASK_ENABLE_TAB_COMPLETION_def Let_def
        reset_input_def emit_def ENABLE_ECHO_def)
qed

text \<open>
  With the hooks \<^verbatim>\<open>abc\<close>, \<^verbatim>\<open>abd\<close> and \<^verbatim>\<open>cmd *\<close>: a tab behind \<^verbatim>\<open>c\<close> calls the
  third, a tab behind \<^verbatim>\<open>a\<close> calls nothing and keeps the input, and a tab on the empty
  input changes nothing.
\<close>

theorem tab_completion_below_capacity_witness:
  "process (console [hook_abc, hook_abd, hook_cmd] all_features ''c'')
     (of_char SPECIAL_KEYWORD_TAB)
     = Returns ((console [hook_abc, hook_abd, hook_cmd] all_features [])
                  \<lparr>trace := [Put ''c'', Put ''[cmd *]\<newline>'', Invoke 3 []]\<rparr>)
   \<and> mCurrentValidInput
        (final (process (console [hook_abc, hook_abd, hook_cmd] all_features ''a'')
                  (of_char SPECIAL_KEYWORD_TAB)))
      = ''a''
   \<and> invoked (trace
        (final (process (console [hook_abc, hook_abd, hook_cmd] all_features ''a'')
                  (of_char SPECIAL_KEYWORD_TAB))))
      = []
   \<and> process (console [hook_abc, hook_abd, hook_cmd] all_features [])
        (of_char SPECIAL_KEYWORD_TAB)
      = Returns (console [hook_abc, hook_abd, hook_cmd] all_features [])
   \<and> process (console [hook_abc, hook_abd, hook_cmd] all_features long_input)
        (of_char SPECIAL_KEYWORD_TAB)
      = Returns ((console [hook_abc, hook_abd, hook_cmd] all_features [])
                   \<lparr>trace := map (\<lambda>c. Put [c]) long_input\<rparr>)"
proof -
  let ?f = "console [hook_abc, hook_abd, hook_cmd] all_features long_input"
  have gf: "mGetchar ?f"
    by (simp add: console_def)
  have tabf: "mFeatures ?f AND feature_TabCompletion \<noteq> 0"
    by code_simp
  have full: "length (mCurrentValidInput ?f) = DIAGTASK_MAX_HOOK_INPUT_LEN"
    by code_simp
  have vf: "reset_input ?f
            = (console [hook_abc, hook_abd, hook_cmd] all_features [])
                \<lparr>trace := map (\<lambda>c. Put [c]) long_input\<rparr>"
    by code_simp
  have p4: "process ?f (of_char SPECIAL_KEYWORD_TAB) = Returns (reset_input ?f)"
    using tab_completion_below_capacity [OF gf tabf, of hook_cmd] full by blast
  let ?hooks = "[hook_abc, hook_abd, hook_cmd]"
  let ?c = "console ?hooks all_features ''c''"
  let ?a = "console ?hooks all_features ''a''"
  let ?e = "console ?hooks all_features []"
  have g: "mGetchar ?c" "mGetchar ?a" "mGetchar ?e"
    by (simp_all add: console_def)
  have tab: "mFeatures ?c AND feature_TabCompletion \<noteq> 0"
    "mFeatures ?a AND feature_TabCompletion \<noteq> 0"
    "mFeatures ?e AND feature_TabCompletion \<noteq> 0"
    by code_simp+
  have c1: "mCurrentValidInput ?c \<noteq> []
            \<and> length (mCurrentValidInput ?c) \<noteq> DIAGTASK_MAX_HOOK_INPUT_LEN
            \<and> privFindHooks ?c (mCurrentValidInput ?c) = [hook_cmd]"
    by code_simp
  have v1: "reset_input (emit [Put (''['' @ name hook_cmd @ '']\<newline>''),
                               Invoke (hook hook_cmd) []] ?c)
            = ?e\<lparr>trace := [Put ''c'', Put ''[cmd *]\<newline>'', Invoke 3 []]\<rparr>"
    by code_simp
  have a2: "length (mCurrentValidInput ?a) \<noteq> DIAGTASK_MAX_HOOK_INPUT_LEN
            \<and> 2 \<le> length (privFindHooks ?a (mCurrentValidInput ?a))"
    by code_simp
  have va: "mCurrentValidInput ?a = ''a''" "invoked (trace ?a) = []"
    by code_simp+
  have e3: "mCurrentValidInput ?e = []"
    by (simp add: console_def)
  have p1: "process ?c (of_char SPECIAL_KEYWORD_TAB) =
              Returns (reset_input (emit [Put (''['' @ name hook_cmd @ '']\<newline>''),
                                          Invoke (hook hook_cmd) []] ?c))"
    using tab_completion_below_capacity [OF g(1) tab(1), of hook_cmd] c1 by blast
  have p2: "mCurrentValidInput (final (process ?a (of_char SPECIAL_KEYWORD_TAB)))
              = mCurrentValidInput ?a
            \<and> invoked (trace (final (process ?a (of_char SPECIAL_KEYWORD_TAB))))
              = invoked (trace ?a)"
    using tab_completion_below_capacity [OF g(2) tab(2), of hook_cmd] a2 by blast
  have p3: "process ?e (of_char SPECIAL_KEYWORD_TAB) = Returns ?e"
    using tab_completion_below_capacity [OF g(3) tab(3), of hook_cmd] e3 by blast
  show ?thesis
    using p1 p2 p3 p4 unfolding v1 va vf by simp
qed

text \<open>
  C5 as stated fails when the input is at its capacity. The thirty characters typed
  select the hook \<^verbatim>\<open>cmd *\<close> alone and the completion feature is on, yet a tab resets
  the input and calls no callback.
\<close>

theorem tab_at_capacity_counterexample:
  "feed (console [hook_cmd] feature_TabCompletion []) (map of_char long_input)
     = Returns (console [hook_cmd] feature_TabCompletion long_input)
   \<and> mFeatures (console [hook_cmd] feature_TabCompletion long_input)
        AND feature_TabCompletion \<noteq> 0
   \<and> privFindHooks (console [hook_cmd] feature_TabCompletion long_input) long_input
      = [hook_cmd]
   \<and> process (console [hook_cmd] feature_TabCompletion long_input)
        (of_char SPECIAL_KEYWORD_TAB)
      = Returns ((console [hook_cmd] feature_TabCompletion [])
                   \<lparr>trace := map (\<lambda>c. Put [c]) long_input\<rparr>)
   \<and> invoked (trace (final
        (process (console [hook_cmd] feature_TabCompletion long_input)
           (of_char SPECIAL_KEYWORD_TAB))))
      = []"
  by code_simp

subsection \<open>Registration\<close>

text \<open>
  C6. \<^verbatim>\<open>registerHook\<close> returns false and changes nothing when the name is null, the
  callback is null, or the length of the name is below \<^verbatim>\<open>DIAGTASK_MIN_HOOKNAME_LEN\<close> or
  above \<^verbatim>\<open>DIAGTASK_MAX_HOOKNAME_LEN\<close>. Otherwise it returns true and adds exactly one
  entry behind the registered ones, whatever they are: the name as given (it fits its
  array), the description cut to \<^verbatim>\<open>DIAGTASK_HOOKDESC_LEN\<close> characters, empty for a
  null description, and the callback.
\<close>

theorem registerHook_contract:
  "((nm = None \<or> hk = None
     \<or> (\<exists>n. nm = Some n
             \<and> (length n < DIAGTASK_MIN_HOOKNAME_LEN \<or> DIAGTASK_MAX_HOOKNAME_LEN < length n)))
    \<longrightarrow> registerHook st nm hk desc = (False, st))
   \<and> (nm = Some n \<and> hk = Some f
       \<and> DIAGTASK_MIN_HOOKNAME_LEN \<le> length n \<and> length n \<le> DIAGTASK_MAX_HOOKNAME_LEN
    \<longrightarrow> registerHook st nm hk desc =
          (True,
           st\<lparr>mHooks := mHooks st
                @ [\<lparr>name = n,
                    description =
                      (case desc of None \<Rightarrow> [] | Some d \<Rightarrow> take DIAGTASK_HOOKDESC_LEN d),
                    hook = f\<rparr>]\<rparr>))"
proof (intro conjI impI)
  assume bad: "nm = None \<or> hk = None
     \<or> (\<exists>n. nm = Some n
             \<and> (length n < DIAGTASK_MIN_HOOKNAME_LEN \<or> DIAGTASK_MAX_HOOKNAME_LEN < length n))"
  then show "registerHook st nm hk desc = (False, st)"
    by (auto simp: registerHook_def Let_def split: option.splits)
next
  assume good: "nm = Some n \<and> hk = Some f
       \<and> DIAGTASK_MIN_HOOKNAME_LEN \<le> length n \<and> length n \<le> DIAGTASK_MAX_HOOKNAME_LEN"
  then have "take DIAGTASK_MAX_HOOKNAME_LEN n = n"
    by simp
  with good show "registerHook st nm hk desc =
          (True,
           st\<lparr>mHooks := mHooks st
                @ [\<lparr>name = n,
                    description =
                      (case desc of None \<Rightarrow> [] | Some d \<Rightarrow> take DIAGTASK_HOOKDESC_LEN d),
                    hook = f\<rparr>]\<rparr>)"
    by (simp add: registerHook_def Let_def)
qed

text \<open>
  A second registration of the name \<^verbatim>\<open>abc\<close> is accepted and its long description is
  cut; a null name, a null callback, the empty name and a name of 21 characters are
  refused.
\<close>

theorem registerHook_contract_witness:
  "registerHook (console [hook_abc] all_features []) (Some ''abc'') (Some 9)
     (Some ''a description of more than twenty characters'')
     = (True,
        console [hook_abc,
                 \<lparr>name = ''abc'', description = ''a description of mor'', hook = 9\<rparr>]
          all_features [])
   \<and> registerHook (console [hook_abc] all_features []) None (Some 9) (Some ''d'')
     = (False, console [hook_abc] all_features [])
   \<and> registerHook (console [hook_abc] all_features []) (Some ''abc'') None (Some ''d'')
     = (False, console [hook_abc] all_features [])
   \<and> registerHook (console [hook_abc] all_features []) (Some []) (Some 9) None
     = (False, console [hook_abc] all_features [])
   \<and> registerHook (console [hook_abc] all_features []) (Some ''abcdefghijklmnopqrstu'')
        (Some 9) None
     = (False, console [hook_abc] all_features [])"
proof -
  let ?st = "console [hook_abc] all_features []"
  let ?d = "''a description of more than twenty characters''"
  let ?long = "''abcdefghijklmnopqrstu''"
  have ok: "Some ''abc'' = Some ''abc'' \<and> Some (9 :: nat) = Some 9
            \<and> DIAGTASK_MIN_HOOKNAME_LEN \<le> length ''abc''
            \<and> length ''abc'' \<le> DIAGTASK_MAX_HOOKNAME_LEN"
    by code_simp
  have v: "?st\<lparr>mHooks := mHooks ?st
                @ [\<lparr>name = ''abc'',
                    description =
                      (case Some ?d of None \<Rightarrow> []
                       | Some d \<Rightarrow> take DIAGTASK_HOOKDESC_LEN d),
                    hook = 9\<rparr>]\<rparr>
           = console [hook_abc,
                 \<lparr>name = ''abc'', description = ''a description of mor'', hook = 9\<rparr>]
               all_features []"
    by code_simp
  have short: "length ([] :: string) < DIAGTASK_MIN_HOOKNAME_LEN"
    by code_simp
  have long: "DIAGTASK_MAX_HOOKNAME_LEN < length ?long"
    by code_simp
  have p1: "registerHook ?st (Some ''abc'') (Some 9) (Some ?d) =
              (True, ?st\<lparr>mHooks := mHooks ?st
                @ [\<lparr>name = ''abc'',
                    description =
                      (case Some ?d of None \<Rightarrow> []
                       | Some d \<Rightarrow> take DIAGTASK_HOOKDESC_LEN d),
                    hook = 9\<rparr>]\<rparr>)"
    using registerHook_contract [of "Some ''abc''" "Some 9" ?st "Some ?d" "''abc''" 9] ok
    by blast
  have p2: "registerHook ?st None (Some 9) (Some ''d'') = (False, ?st)"
    using registerHook_contract [of None "Some 9" ?st "Some ''d''" "[]" 9] by blast
  have p3: "registerHook ?st (Some ''abc'') None (Some ''d'') = (False, ?st)"
    using registerHook_contract [of "Some ''abc''" None ?st "Some ''d''" "[]" 9] by blast
  have p4: "registerHook ?st (Some []) (Some 9) None = (False, ?st)"
    using registerHook_contract [of "Some []" "Some 9" ?st None "[]" 9] short by blast
  have p5: "registerHook ?st (Some ?long) (Some 9) None = (False, ?st)"
    using registerHook_contract [of "Some ?long" "Some 9" ?st None "[]" 9] long by blast
  show ?thesis
    using p1 p2 p3 p4 p5 unfolding v by simp
qed

subsection \<open>Overflow and unknown input\<close>

text \<open>
  C7. When a character is received while the input is at its capacity
  \<^verbatim>\<open>DIAGTASK_MAX_HOOK_INPUT_LEN\<close>, \<^verbatim>\<open>process\<close> resets the input and returns; and
  when a character reaches the input and the extended input selects no hook,
  \<^verbatim>\<open>process\<close> resets the input and returns. In both cases only the echo is written:
  no callback is called.
\<close>

theorem overflow_and_unknown_input_reset:
  assumes "mGetchar st" and "0 \<le> got"
  shows "(length (mCurrentValidInput st) = DIAGTASK_MAX_HOOK_INPUT_LEN
          \<longrightarrow> process st got = Returns (reset_input (echo st (normalise_char got))))
       \<and> (accumulates st got \<and> privFindHooks st (extended st got) = []
          \<longrightarrow> process st got = Returns (reset_input (echo st (normalise_char got))))
       \<and> mCurrentValidInput (reset_input (echo st (normalise_char got))) = []
       \<and> invoked (trace (reset_input (echo st (normalise_char got)))) = invoked (trace st)"
proof -
  have a: "length (mCurrentValidInput st) = DIAGTASK_MAX_HOOK_INPUT_LEN
          \<Longrightarrow> process st got = Returns (reset_input (echo st (normalise_char got)))"
    using assms by (rule process_full)
  have b: "accumulates st got \<Longrightarrow> privFindHooks st (extended st got) = []
          \<Longrightarrow> process st got = Returns (reset_input (echo st (normalise_char got)))"
    by (simp add: process_accumulates dispatch_def reset_appended)
  show ?thesis
    using a b by (simp add: reset_input_def)
qed

text \<open>
  With the hook \<^verbatim>\<open>cmd *\<close> alone, thirty-one characters that never end a line leave
  the input empty and call nothing; and with the hooks \<^verbatim>\<open>abc\<close> and \<^verbatim>\<open>abd\<close>, an
  \<^verbatim>\<open>x\<close> behind \<^verbatim>\<open>ab\<close> resets the input.
\<close>

theorem overflow_and_unknown_input_reset_witness:
  "length (mCurrentValidInput (console [hook_cmd] all_features long_input))
     = DIAGTASK_MAX_HOOK_INPUT_LEN
   \<and> process (console [hook_cmd] all_features long_input) (of_char CHR ''6'')
      = Returns ((console [hook_cmd] all_features [])
                   \<lparr>trace := map (\<lambda>c. Put [c]) (long_input @ ''6'')\<rparr>)
   \<and> feed (console [hook_cmd] all_features []) (map of_char (long_input @ ''6''))
      = Returns ((console [hook_cmd] all_features [])
                   \<lparr>trace := map (\<lambda>c. Put [c]) (long_input @ ''6'')\<rparr>)
   \<and> accumulates (console [hook_abc, hook_abd] all_features ''ab'') (of_char CHR ''x'')
   \<and> privFindHooks (console [hook_abc, hook_abd] all_features ''ab'')
        (extended (console [hook_abc, hook_abd] all_features ''ab'') (of_char CHR ''x'')) = []
   \<and> process (console [hook_abc, hook_abd] all_features ''ab'') (of_char CHR ''x'')
      = Returns ((console [hook_abc, hook_abd] all_features [])
                   \<lparr>trace := [Put ''a'', Put ''b'', Put ''x'']\<rparr>)"
proof -
  let ?full = "console [hook_cmd] all_features long_input"
  let ?ab = "console [hook_abc, hook_abd] all_features ''ab''"
  have g: "mGetchar ?full" "mGetchar ?ab"
    by (simp_all add: console_def)
  have pos: "(0 :: int) \<le> of_char CHR ''6''" "(0 :: int) \<le> of_char CHR ''x''"
    by simp_all
  have full: "length (mCurrentValidInput ?full) = DIAGTASK_MAX_HOOK_INPUT_LEN"
    by code_simp
  have v1: "reset_input (echo ?full (normalise_char (of_char CHR ''6'')))
            = (console [hook_cmd] all_features [])
                \<lparr>trace := map (\<lambda>c. Put [c]) (long_input @ ''6'')\<rparr>"
    by code_simp
  have run: "feed (console [hook_cmd] all_features []) (map of_char (long_input @ ''6''))
      = Returns ((console [hook_cmd] all_features [])
                   \<lparr>trace := map (\<lambda>c. Put [c]) (long_input @ ''6'')\<rparr>)"
    by code_simp
  have acc: "accumulates ?ab (of_char CHR ''x'')"
    by code_simp
  have none: "privFindHooks ?ab (extended ?ab (of_char CHR ''x'')) = []"
    by code_simp
  have v2: "reset_input (echo ?ab (normalise_char (of_char CHR ''x'')))
            = (console [hook_abc, hook_abd] all_features [])
                \<lparr>trace := [Put ''a'', Put ''b'', Put ''x'']\<rparr>"
    by code_simp
  have p1: "process ?full (of_char CHR ''6'') =
              Returns (reset_input (echo ?full (normalise_char (of_char CHR ''6''))))"
    using overflow_and_unknown_input_reset [OF g(1) pos(1)] full by blast
  have p2: "process ?ab (of_char CHR ''x'') =
              Returns (reset_input (echo ?ab (normalise_char (of_char CHR ''x''))))"
    using overflow_and_unknown_input_reset [OF g(2) pos(2)] acc none by blast
  show ?thesis
    using full run acc none p1 p2 unfolding v1 v2 by simp
qed

subsection \<open>The invariant of the input\<close>

text \<open>
  C8. If the input is at most \<^verbatim>\<open>DIAGTASK_MAX_HOOK_INPUT_LEN\<close> characters long and is
  empty or selects at least one registered hook, the same holds after every call of
  \<^verbatim>\<open>process\<close> (also for the state in which a reboot leaves the console), of
  \<^verbatim>\<open>registerHook\<close> and of \<^verbatim>\<open>enableFeatures\<close>. A new console satisfies it
  (\<open>input_ok_new\<close>), and so does every console reached by feeding characters
  (\<open>input_ok_feed\<close>).
\<close>

theorem input_ok_preserved:
  assumes "input_ok st"
  shows "input_ok (final (process st got))
       \<and> input_ok (snd (registerHook st nm hk desc))
       \<and> input_ok (enableFeatures st features)"
proof (intro conjI)
  show "input_ok (final (process st got))"
    using assms by (rule input_ok_process)
  show "input_ok (snd (registerHook st nm hk desc))"
    using assms by (rule input_ok_registerHook)
  have "privFindHooks (enableFeatures st features) x = privFindHooks st x" for x
    by (rule privFindHooks_same_hooks) (simp add: enableFeatures_def)
  then show "input_ok (enableFeatures st features)"
    using assms by (simp add: input_ok_def) (simp add: enableFeatures_def)
qed

theorem input_ok_preserved_witness:
  "input_ok (console [hook_abc, hook_abd, hook_cmd] all_features ''ab'')
   \<and> input_ok (final (process (console [hook_abc, hook_abd, hook_cmd] all_features ''ab'')
                        (of_char CHR ''d'')))
   \<and> mCurrentValidInput
        (final (process (console [hook_abc, hook_abd, hook_cmd] all_features ''a'')
                  (of_char CHR ''b''))) = ''ab''
   \<and> input_ok (final (process (console [hook_abc, hook_abd, hook_cmd] all_features ''a'')
                        (of_char CHR ''b'')))
   \<and> input_ok (snd (registerHook (console [hook_abc, hook_abd, hook_cmd] all_features ''ab'')
                       (Some ''xyz'') (Some 9) None))
   \<and> input_ok (enableFeatures (console [hook_abc, hook_abd, hook_cmd] all_features ''ab'')
                 feature_None)"
proof -
  let ?ab = "console [hook_abc, hook_abd, hook_cmd] all_features ''ab''"
  let ?a = "console [hook_abc, hook_abd, hook_cmd] all_features ''a''"
  have ok1: "input_ok ?ab"
    by code_simp
  have ok2: "input_ok ?a"
    by code_simp
  have kept: "mCurrentValidInput (final (process ?a (of_char CHR ''b''))) = ''ab''"
    by code_simp
  from input_ok_preserved [OF ok1, of "of_char CHR ''d''" "Some ''xyz''" "Some 9" None
      feature_None]
    input_ok_preserved [OF ok2, of "of_char CHR ''b''" None None None feature_None]
  show ?thesis
    using ok1 kept by simp
qed

subsection \<open>Help\<close>

text \<open>
  C9, as the code has it. When the help feature is on and a question mark is received on
  an empty input, the help prints an empty line, one line for each special command that
  is compiled in (help, separator and reboot; search is compiled out), whether or not the
  feature bit of that command is on, and then name and description of every registered
  hook in the order of registration; the input is reset and the character is reported as
  handled.
\<close>

theorem help_prints_compiled_commands_and_hooks:
  assumes g: "mGetchar st" and bit: "mFeatures st AND feature_Help \<noteq> 0"
    and empty: "mCurrentValidInput st = []"
  shows "privCheckAndProcessSpecialChars st SPECIAL_KEYWORD_HELP =
           Returns (True,
             st\<lparr>mCurrentValidInput := [],
                trace := trace st
                  @ [Put ''\<newline>'', Put ''? - help\<newline>'', Put ''# - separator\<newline>'',
                     Put ''! - reboot\<newline>'']
                  @ map (\<lambda>h. Put (pad_right 20 (name h) @ [CHR 0x09] @ description h
                                   @ ''\<newline>''))
                      (mHooks st)\<rparr>)
       \<and> process st (of_char SPECIAL_KEYWORD_HELP) =
           Returns
             (st\<lparr>mCurrentValidInput := [],
                 trace := trace st
                  @ [Put ''\<newline>'', Put ''? - help\<newline>'', Put ''# - separator\<newline>'',
                     Put ''! - reboot\<newline>'']
                  @ map (\<lambda>h. Put (pad_right 20 (name h) @ [CHR 0x09] @ description h
                                   @ ''\<newline>''))
                      (mHooks st)\<rparr>)"
proof -
  have a: "privCheckAndProcessSpecialChars st SPECIAL_KEYWORD_HELP =
           Returns (True,
             st\<lparr>mCurrentValidInput := [],
                trace := trace st
                  @ [Put ''\<newline>'', Put ''? - help\<newline>'', Put ''# - separator\<newline>'',
                     Put ''! - reboot\<newline>'']
                  @ map (\<lambda>h. Put (pad_right 20 (name h) @ [CHR 0x09] @ description h
                                   @ ''\<newline>''))
                      (mHooks st)\<rparr>)"
    using bit
    by (simp add: privCheckAndProcessSpecialChars_def DIAGTASK_ENABLE_HELP_def privHelp_def
        DIAGTASK_ENABLE_SEARCH_def DIAGTASK_ENABLE_SEPARATOR_def DIAGTASK_ENABLE_REBOOT_def
        reset_input_def emit_def hook_line_def EOL_def SPECIAL_KEYWORD_HELP_def
        SPECIAL_KEYWORD_SEPARATOR_def SPECIAL_KEYWORD_REBOOT_def)
  have nf: "length (mCurrentValidInput st) \<noteq> DIAGTASK_MAX_HOOK_INPUT_LEN"
    using empty by (simp add: DIAGTASK_MAX_HOOK_INPUT_LEN_def DIAGTASK_MAX_HOOKNAME_LEN_def)
  show ?thesis
    using g nf empty by (simp add: process_def Let_def a)
qed

theorem help_prints_compiled_commands_and_hooks_witness:
  "mFeatures (console [hook_abc, hook_cmd] all_features []) AND feature_Help \<noteq> 0
   \<and> process (console [hook_abc, hook_cmd] all_features []) (of_char SPECIAL_KEYWORD_HELP)
      = Returns
          ((console [hook_abc, hook_cmd] all_features [])
             \<lparr>trace := [Put ''\<newline>'', Put ''? - help\<newline>'', Put ''# - separator\<newline>'',
                        Put ''! - reboot\<newline>'',
                        Put (''abc                 '' @ [CHR 0x09] @ ''first\<newline>''),
                        Put (''cmd *               '' @ [CHR 0x09]
                             @ ''with argument\<newline>'')]\<rparr>)"
proof -
  let ?st = "console [hook_abc, hook_cmd] all_features []"
  have g: "mGetchar ?st"
    by (simp add: console_def)
  have bit: "mFeatures ?st AND feature_Help \<noteq> 0"
    by code_simp
  have empty: "mCurrentValidInput ?st = []"
    by (simp add: console_def)
  have v: "?st\<lparr>mCurrentValidInput := [],
               trace := trace ?st
                  @ [Put ''\<newline>'', Put ''? - help\<newline>'', Put ''# - separator\<newline>'',
                     Put ''! - reboot\<newline>'']
                  @ map (\<lambda>h. Put (pad_right 20 (name h) @ [CHR 0x09] @ description h
                                   @ ''\<newline>''))
                      (mHooks ?st)\<rparr>
           = ?st\<lparr>trace := [Put ''\<newline>'', Put ''? - help\<newline>'', Put ''# - separator\<newline>'',
                        Put ''! - reboot\<newline>'',
                        Put (''abc                 '' @ [CHR 0x09] @ ''first\<newline>''),
                        Put (''cmd *               '' @ [CHR 0x09]
                             @ ''with argument\<newline>'')]\<rparr>"
    by code_simp
  from help_prints_compiled_commands_and_hooks [OF g bit empty]
  show ?thesis
    unfolding v using bit by simp
qed

text \<open>
  C9 as stated fails. On a console where the help feature alone is on, the help prints
  the lines of the separator and of the reboot, which are not enabled.
\<close>

theorem help_lists_disabled_commands_counterexample:
  "mFeatures (console [hook_abc] feature_Help []) AND feature_Help = feature_Help
   \<and> mFeatures (console [hook_abc] feature_Help []) AND feature_Seperator = 0
   \<and> mFeatures (console [hook_abc] feature_Help []) AND feature_Reboot = 0
   \<and> process (console [hook_abc] feature_Help []) (of_char SPECIAL_KEYWORD_HELP)
      = Returns
          ((console [hook_abc] feature_Help [])
             \<lparr>trace := [Put ''\<newline>'', Put ''? - help\<newline>'', Put ''# - separator\<newline>'',
                        Put ''! - reboot\<newline>'',
                        Put (''abc                 '' @ [CHR 0x09] @ ''first\<newline>'')]\<rparr>)
   \<and> process (console [hook_abc] feature_Help []) (of_char SPECIAL_KEYWORD_SEPARATOR)
      = Returns (console [hook_abc] feature_Help [])
   \<and> process (console [hook_abc] feature_Help []) (of_char SPECIAL_KEYWORD_REBOOT)
      = Returns (console [hook_abc] feature_Help [])"
  by code_simp

subsection \<open>Features\<close>

text \<open>
  C10. \<^verbatim>\<open>enableFeatures\<close> replaces the feature mask: after two calls the mask is the
  second argument, every bit of the first argument that is not in the second is off, and
  the registered hooks, the input and every other member are as before.
\<close>

theorem enableFeatures_replaces_mask:
  "enableFeatures (enableFeatures st m1) m2 = st\<lparr>mFeatures := m2\<rparr>
   \<and> mFeatures (enableFeatures (enableFeatures st m1) m2) = m2
   \<and> mFeatures (enableFeatures (enableFeatures st m1) m2) AND (m1 AND NOT m2) = 0
   \<and> mHooks (enableFeatures st m) = mHooks st
   \<and> mCurrentValidInput (enableFeatures st m) = mCurrentValidInput st
   \<and> count (enableFeatures st m) = count st
   \<and> trace (enableFeatures st m) = trace st"
  by (simp add: enableFeatures_def bit_eq_iff bit_and_iff bit_not_iff)


end
